theory Spec2Isabelle
  imports Complex_Main
begin

section \<open>Numbers, errors and the parameter bundle\<close>

text \<open>
  The program of \<^verbatim>\<open>exam/ConsumptionSaving.py\<close> computes with floating-point numbers.
  They are idealised as reals: rounding and overflow are not modelled. What is modelled
  is the absence of a finite result. A \<open>pyfloat\<close> is \<open>Some x\<close> for the finite number
  \<open>x\<close>, and \<open>None\<close> when the operation has no finite real result: with numpy scalars
  (the operands inside the optimiser) that is \<open>inf\<close> or \<open>nan\<close>, with plain Python floats
  it is a \<open>ZeroDivisionError\<close> (or, for a negative base and a fractional exponent, a
  complex number). \<open>None\<close> is absorbing in every arithmetic operation below, as
  \<open>inf\<close> and \<open>nan\<close> are in the sums, products and negations the program performs.
\<close>

type_synonym pyfloat = "real option"

datatype py_error = ZeroDivisionError | ValueError | IndexError

definition fadd :: "pyfloat \<Rightarrow> pyfloat \<Rightarrow> pyfloat" where
  "fadd a b = (case a of None \<Rightarrow> None
                | Some u \<Rightarrow> (case b of None \<Rightarrow> None | Some w \<Rightarrow> Some (u + w)))"

definition fmul :: "pyfloat \<Rightarrow> pyfloat \<Rightarrow> pyfloat" where
  "fmul a b = (case a of None \<Rightarrow> None
                | Some u \<Rightarrow> (case b of None \<Rightarrow> None | Some w \<Rightarrow> Some (u * w)))"

definition fneg :: "pyfloat \<Rightarrow> pyfloat" where
  "fneg a = (case a of None \<Rightarrow> None | Some u \<Rightarrow> Some (- u))"

text \<open>Division by a finite number: a zero divisor gives no finite result.\<close>

definition fdiv :: "pyfloat \<Rightarrow> real \<Rightarrow> pyfloat" where
  "fdiv a d = (case a of None \<Rightarrow> None
                | Some u \<Rightarrow> (if d = 0 then None else Some (u / d)))"

text \<open>
  The power operator \<^verbatim>\<open>b ** e\<close> on finite numbers. Anything to the power zero is one;
  zero to a negative power has no finite result; a negative base is raised to integral
  exponents only.
\<close>

definition py_pow :: "real \<Rightarrow> real \<Rightarrow> pyfloat" where
  "py_pow b e =
     (if e = 0 then Some 1
      else if b = 0 then (if e < 0 then None else Some 0)
      else if 0 < b then Some (b powr e)
      else if e = of_int \<lfloor>e\<rfloor> then Some (b powi \<lfloor>e\<rfloor>)
      else None)"

text \<open>The parameter bundle \<^verbatim>\<open>par\<close>: an object with eight numeric attributes.\<close>

record params =
  rho :: real
  nu :: real
  kappa :: real
  beta :: real
  r :: real
  Delta :: real
  P_low :: real
  P_high :: real

text \<open>
  An instance of the class: the constructor stores the bundle and two empty lists. No
  method assigns to an attribute, so a method is a function of the instance.
\<close>

record ConsumptionSavingModel =
  par :: params
  sim_m1 :: "real list"
  data_m1 :: "real list"

definition init :: "params \<Rightarrow> ConsumptionSavingModel" where
  "init p = \<lparr>par = p, sim_m1 = [], data_m1 = []\<rparr>"

section \<open>Utility, bequest and the two value-of-choice functions\<close>

definition utility :: "ConsumptionSavingModel \<Rightarrow> real \<Rightarrow> pyfloat" where
  "utility self c = fdiv (py_pow c (1 - rho (par self))) (1 - rho (par self))"

definition bequest :: "ConsumptionSavingModel \<Rightarrow> real \<Rightarrow> real \<Rightarrow> pyfloat" where
  "bequest self m c =
     fdiv (fmul (Some (nu (par self)))
                (py_pow (m - c + kappa (par self)) (1 - rho (par self))))
          (1 - rho (par self))"

definition v2 :: "ConsumptionSavingModel \<Rightarrow> real \<Rightarrow> real \<Rightarrow> pyfloat" where
  "v2 self c2 m2 = fadd (utility self c2) (bequest self m2 c2)"

text \<open>
  An interpolator object is called with a list of query points and returns the list of
  interpolated values, or raises. \<^verbatim>\<open>ys[0]\<close> raises on an empty result.
\<close>

type_synonym interp = "real list \<Rightarrow> py_error + pyfloat list"

definition index0 :: "'a list \<Rightarrow> py_error + 'a" where
  "index0 ys = (case ys of [] \<Rightarrow> Inl IndexError | y # _ \<Rightarrow> Inr y)"

definition v1 :: "ConsumptionSavingModel \<Rightarrow> real \<Rightarrow> real \<Rightarrow> interp \<Rightarrow> py_error + pyfloat" where
  "v1 self c1 m1 v2_interp =
     (let m2_low = (1 + r (par self)) * (m1 - c1) + 1 - Delta (par self) in
      case v2_interp [m2_low] of Inl e \<Rightarrow> Inl e | Inr ys_low \<Rightarrow>
      case index0 ys_low of Inl e \<Rightarrow> Inl e | Inr v2_low \<Rightarrow>
      let m2_high = (1 + r (par self)) * (m1 - c1) + 1 + Delta (par self) in
      case v2_interp [m2_high] of Inl e \<Rightarrow> Inl e | Inr ys_high \<Rightarrow>
      case index0 ys_high of Inl e \<Rightarrow> Inl e | Inr v2_high \<Rightarrow>
      let expected_v2 = fadd (fmul (Some (P_low (par self))) v2_low)
                             (fmul (Some (P_high (par self))) v2_high)
      in Inr (fadd (utility self c1) (fmul (Some (beta (par self))) expected_v2)))"

text \<open>
  An interpolator that never raises and answers each query point on its own is given by
  the function \<open>V2\<close> it computes.
\<close>

definition interp_of :: "(real \<Rightarrow> pyfloat) \<Rightarrow> interp" where
  "interp_of V2 qs = Inr (map V2 qs)"

section \<open>Library calls: grids, arrays, the optimiser, the interpolator\<close>

text \<open>
  \<^verbatim>\<open>np.linspace(start, stop, num)\<close>: \<open>num\<close> evenly spaced points, \<open>arange(num) * step +
  start\<close> with \<open>step = (stop - start) / (num - 1)\<close>. The library then overwrites the
  last point with \<open>stop\<close>, which in real arithmetic it already is.
\<close>

definition linspace :: "real \<Rightarrow> real \<Rightarrow> nat \<Rightarrow> real list" where
  "linspace start stop num =
     (let step = (stop - start) / real (num - 1)
      in map (\<lambda>i. real i * step + start) [0..<num])"

text \<open>\<^verbatim>\<open>np.empty(n)\<close>: an array of \<open>n\<close> slots that hold no meaningful number yet.\<close>

definition np_empty :: "nat \<Rightarrow> pyfloat list" where
  "np_empty n = replicate n None"

text \<open>\<^verbatim>\<open>a[i] = v\<close> with a non-negative index: out of range it raises.\<close>

definition store :: "'a list \<Rightarrow> nat \<Rightarrow> 'a \<Rightarrow> py_error + 'a list" where
  "store a i v = (if i < length a then Inr (a[i := v]) else Inl IndexError)"

text \<open>
  \<^verbatim>\<open>a[i] = b\<close> where \<open>b\<close> is itself an array. The program depends on no particular
  release of the array library, and the releases differ here: before 2.4 an array with
  one entry is converted to that entry (with a deprecation warning from 1.25 on); from
  2.4 on the assignment raises. An array with another number of entries always raises.
\<close>

datatype numpy = Legacy | Current

definition setitem_array :: "numpy \<Rightarrow> pyfloat list \<Rightarrow> nat \<Rightarrow> real list \<Rightarrow> py_error + pyfloat list" where
  "setitem_array np a i b =
     (case np of
        Current \<Rightarrow> Inl ValueError
      | Legacy \<Rightarrow> (case b of [u] \<Rightarrow> store a i (Some u) | _ \<Rightarrow> Inl ValueError))"

text \<open>\<^verbatim>\<open>a[i]\<close> with a signed index: a negative index counts from the end.\<close>

definition np_get :: "'a list \<Rightarrow> int \<Rightarrow> py_error + 'a" where
  "np_get a i =
     (let n = int (length a); j = (if i < 0 then n + i else i)
      in if 0 \<le> j \<and> j < n then Inr (a ! nat j) else Inl IndexError)"

text \<open>A \<^verbatim>\<open>for\<close> loop over a list, threading the loop's variables; a raise ends it.\<close>

fun for_loop :: "('a \<Rightarrow> 's \<Rightarrow> py_error + 's) \<Rightarrow> 'a list \<Rightarrow> 's \<Rightarrow> py_error + 's" where
  "for_loop body [] s = Inr s"
| "for_loop body (a # as) s =
     (case body a s of Inl e \<Rightarrow> Inl e | Inr s' \<Rightarrow> for_loop body as s')"

fun map_err :: "('a \<Rightarrow> py_error + 'b) \<Rightarrow> 'a list \<Rightarrow> py_error + 'b list" where
  "map_err f [] = Inr []"
| "map_err f (a # as) =
     (case f a of Inl e \<Rightarrow> Inl e
      | Inr b \<Rightarrow> (case map_err f as of Inl e \<Rightarrow> Inl e | Inr bs \<Rightarrow> Inr (b # bs)))"

text \<open>
  \<^verbatim>\<open>optimize.minimize(obj, [x0], method='L-BFGS-B', bounds=((lo, hi),))\<close> is a call into
  a numerical library and a parameter of the model. The problem is one-dimensional:
  the arrays of length one that go in (\<^verbatim>\<open>x\<close>, \<^verbatim>\<open>[x0]\<close>) are their single entry; the array
  \<^verbatim>\<open>result.x\<close> that comes out is kept as an array. The objective may raise, and so may
  the optimiser.
\<close>

record OptimizeResult =
  result_x :: "real list"
  result_fun :: pyfloat

type_synonym objective = "real \<Rightarrow> py_error + pyfloat"

type_synonym minimizer = "objective \<Rightarrow> real \<Rightarrow> real \<times> real \<Rightarrow> py_error + OptimizeResult"

text \<open>
  What the solver relies on: given a non-empty box and an objective that does not
  raise, a bound-constrained optimiser returns a point of the box, as an array with
  that one entry.
\<close>

definition box_constrained :: "minimizer \<Rightarrow> bool" where
  "box_constrained minimize \<longleftrightarrow>
     (\<forall>obj x0 lo hi. lo \<le> hi \<longrightarrow> (\<forall>u. \<exists>w. obj u = Inr w) \<longrightarrow>
        (\<exists>res u. minimize obj x0 (lo, hi) = Inr res \<and> result_x res = [u] \<and> lo \<le> u \<and> u \<le> hi))"

text \<open>
  The simplest such optimiser performs no iteration: it projects the initial guess onto
  the box and evaluates the objective there.
\<close>

definition projected_start :: minimizer where
  "projected_start obj x0 bounds =
     (case bounds of (lo, hi) \<Rightarrow>
        if hi < lo then Inl ValueError
        else (let u = max lo (min hi x0)
              in case obj u of Inl e \<Rightarrow> Inl e
                 | Inr w \<Rightarrow> Inr \<lparr>result_x = [u], result_fun = w\<rparr>))"

text \<open>An optimiser that raises the error \<open>e\<close> as soon as it is called.\<close>

definition raising :: "py_error \<Rightarrow> minimizer" where
  "raising e obj x0 bounds = Inl e"

text \<open>
  \<^verbatim>\<open>interpolate.RegularGridInterpolator([points], values, bounds_error, fill_value)\<close> in one
  dimension with the default linear method, after the library's documented behaviour.
  The constructor requires strictly ascending points and as many values as points. A
  call locates each query point between two neighbouring grid points (the index found
  by \<^verbatim>\<open>searchsorted\<close>, clamped to the first and the last segment) and weighs their two
  values by the normalised distance. With \<open>bounds_error\<close> a query outside the grid
  raises; otherwise a \<open>fill_value\<close> that is not \<^verbatim>\<open>None\<close> replaces the result there, and
  with \<^verbatim>\<open>None\<close> the end segment's line is used.
\<close>

text \<open>
  On an ascending grid the insertion index that \<^verbatim>\<open>searchsorted\<close> finds is the number of
  grid points below the query point.
\<close>

definition searchsorted :: "real list \<Rightarrow> real \<Rightarrow> nat" where
  "searchsorted grid q = length (takeWhile (\<lambda>g. g < q) grid)"

definition interp_point :: "real list \<Rightarrow> pyfloat list \<Rightarrow> real \<Rightarrow> py_error + pyfloat" where
  "interp_point grid values q =
     (let i0 = int (searchsorted grid q) - 1;
          i1 = (if i0 < 0 then 0 else i0);
          i = (if i1 > int (length grid) - 2 then int (length grid) - 2 else i1)
      in case np_get grid i of Inl e \<Rightarrow> Inl e | Inr g0 \<Rightarrow>
         case np_get grid (i + 1) of Inl e \<Rightarrow> Inl e | Inr g1 \<Rightarrow>
         let norm_distance = fdiv (Some (q - g0)) (g1 - g0)
         in case np_get values i of Inl e \<Rightarrow> Inl e | Inr y0 \<Rightarrow>
            case np_get values (i + 1) of Inl e \<Rightarrow> Inl e | Inr y1 \<Rightarrow>
            Inr (fadd (fadd (Some 0) (fmul y0 (fadd (Some 1) (fneg norm_distance))))
                      (fmul y1 norm_distance)))"

text \<open>\<^verbatim>\<open>grid[0]\<close> and \<^verbatim>\<open>grid[-1]\<close> are read on a grid that is not empty.\<close>

definition out_of_bounds :: "real list \<Rightarrow> real \<Rightarrow> bool" where
  "out_of_bounds grid q = (q < hd grid \<or> last grid < q)"

definition rgi_call ::
  "real list \<Rightarrow> pyfloat list \<Rightarrow> bool \<Rightarrow> pyfloat option \<Rightarrow> interp" where
  "rgi_call grid values bounds_error fill_value xi =
     (if grid = [] then Inl IndexError
      else if bounds_error \<and> list_ex (out_of_bounds grid) xi then Inl ValueError
      else case map_err (interp_point grid values) xi of Inl e \<Rightarrow> Inl e
           | Inr result \<Rightarrow>
               (case fill_value of
                  None \<Rightarrow> Inr result
                | Some fill \<Rightarrow>
                    if bounds_error then Inr result
                    else Inr (map (\<lambda>(q, y). if out_of_bounds grid q then fill else y)
                                  (zip xi result))))"

definition RegularGridInterpolator ::
  "real list \<Rightarrow> pyfloat list \<Rightarrow> bool \<Rightarrow> pyfloat option \<Rightarrow> py_error + interp" where
  "RegularGridInterpolator points values bounds_error fill_value =
     (if \<not> sorted_wrt (<) points then Inl ValueError
      else if length values \<noteq> length points then Inl ValueError
      else Inr (rgi_call points values bounds_error fill_value))"

section \<open>The two period solvers, the full solve and the simulation\<close>

text \<open>
  The two sweeps differ in their last statement: period 2 assigns the array \<^verbatim>\<open>result.x\<close>
  to \<^verbatim>\<open>c2s[i]\<close>, period 1 assigns its entry \<^verbatim>\<open>result.x[0]\<close> to \<^verbatim>\<open>c1s[i]\<close>.
\<close>

definition solve_period_2 ::
  "numpy \<Rightarrow> minimizer \<Rightarrow> ConsumptionSavingModel
     \<Rightarrow> py_error + (real list \<times> pyfloat list \<times> pyfloat list)" where
  "solve_period_2 np minimize self =
     (let m2s = linspace (1 / 10 ^ 4) 5 500;
          v2s = np_empty 500;
          c2s = np_empty 500
      in case for_loop
                (\<lambda>(i, m2) (v2s, c2s).
                   let obj = (\<lambda>u. Inr (fneg (v2 self u m2)));
                       x0 = m2 / 2
                   in case minimize obj x0 (1 / 10 ^ 8, m2) of Inl e \<Rightarrow> Inl e
                      | Inr result \<Rightarrow>
                         (case store v2s i (fneg (result_fun result)) of Inl e \<Rightarrow> Inl e
                          | Inr v2s' \<Rightarrow>
                             (case setitem_array np c2s i (result_x result) of Inl e \<Rightarrow> Inl e
                              | Inr c2s' \<Rightarrow> Inr (v2s', c2s'))))
                (enumerate 0 m2s) (v2s, c2s)
         of Inl e \<Rightarrow> Inl e
          | Inr (v2s, c2s) \<Rightarrow> Inr (m2s, v2s, c2s))"

definition solve_period_1 ::
  "minimizer \<Rightarrow> ConsumptionSavingModel \<Rightarrow> interp
     \<Rightarrow> py_error + (real list \<times> pyfloat list \<times> pyfloat list)" where
  "solve_period_1 minimize self v2_interp =
     (let m1s = linspace (1 / 10 ^ 8) 4 100;
          v1s = np_empty 100;
          c1s = np_empty 100
      in case for_loop
                (\<lambda>(i, m1) (v1s, c1s).
                   let obj = (\<lambda>u. case v1 self u m1 v2_interp of Inl e \<Rightarrow> Inl e
                                    | Inr w \<Rightarrow> Inr (fneg w));
                       x0 = m1 / 2
                   in if 1 + r (par self) = 0 then Inl ZeroDivisionError
                      else
                       case minimize obj x0
                              (1 / 10 ^ 12, m1 + (1 - Delta (par self)) / (1 + r (par self)))
                       of Inl e \<Rightarrow> Inl e
                        | Inr result \<Rightarrow>
                           (case store v1s i (fneg (result_fun result)) of Inl e \<Rightarrow> Inl e
                            | Inr v1s' \<Rightarrow>
                               (case index0 (result_x result) of Inl e \<Rightarrow> Inl e
                                | Inr c \<Rightarrow>
                                   (case store c1s i (Some c) of Inl e \<Rightarrow> Inl e
                                    | Inr c1s' \<Rightarrow> Inr (v1s', c1s')))))
                (enumerate 0 m1s) (v1s, c1s)
         of Inl e \<Rightarrow> Inl e
          | Inr (v1s, c1s) \<Rightarrow> Inr (m1s, v1s, c1s))"

type_synonym solution =
  "real list \<times> pyfloat list \<times> pyfloat list \<times> real list \<times> pyfloat list \<times> pyfloat list"

definition solve :: "numpy \<Rightarrow> minimizer \<Rightarrow> ConsumptionSavingModel \<Rightarrow> py_error + solution" where
  "solve np minimize self =
     (case solve_period_2 np minimize self of Inl e \<Rightarrow> Inl e
      | Inr (m2s, v2s, c2s) \<Rightarrow>
         (case RegularGridInterpolator m2s v2s False None of Inl e \<Rightarrow> Inl e
          | Inr v2_interp \<Rightarrow>
             (case solve_period_1 minimize self v2_interp of Inl e \<Rightarrow> Inl e
              | Inr (m1s, v1s, c1s) \<Rightarrow> Inr (m1s, v1s, c1s, m2s, v2s, c2s))))"

definition simulate ::
  "numpy \<Rightarrow> minimizer \<Rightarrow> ConsumptionSavingModel \<Rightarrow> py_error + pyfloat list" where
  "simulate np minimize self =
     (case solve np minimize self of Inl e \<Rightarrow> Inl e
      | Inr (m1s, v1s, c1s, m2s, v2s, c2s) \<Rightarrow>
         (case RegularGridInterpolator m1s c1s False None of Inl e \<Rightarrow> Inl e
          | Inr c1_interp1 \<Rightarrow> c1_interp1 (sim_m1 self)))"

section \<open>Notions used to state the properties\<close>

text \<open>
  The conditions the specification puts on a parameter bundle (the program itself checks
  none of them).
\<close>

definition valid_par :: "params \<Rightarrow> bool" where
  "valid_par p \<longleftrightarrow>
     rho p \<noteq> 1 \<and> 0 \<le> nu p \<and> 0 < kappa p \<and> 0 < beta p \<and> beta p \<le> 1 \<and> - 1 < r p \<and>
     0 \<le> Delta p \<and> Delta p \<le> 1 \<and> 0 \<le> P_low p \<and> P_low p \<le> 1 \<and>
     0 \<le> P_high p \<and> P_high p \<le> 1 \<and> P_low p + P_high p = 1"

text \<open>The parameter values of the specification's end-to-end scenario.\<close>

definition example_par :: params where
  "example_par = \<lparr>rho = 2, nu = 1 / 10, kappa = 1 / 2, beta = 95 / 100, r = 2 / 100,
                   Delta = 1 / 2, P_low = 1 / 2, P_high = 1 / 2\<rparr>"

text \<open>
  Three more bundles: one whose probabilities do not sum to one, one that also has
  \<open>rho = 1\<close> and a negative \<open>Delta\<close>, and a valid one that shares only \<open>rho\<close>,
  \<open>nu\<close> and \<open>kappa\<close> with the scenario's.
\<close>

definition skewed_par :: params where
  "skewed_par = example_par\<lparr>P_high := 6 / 10\<rparr>"

definition degenerate_par :: params where
  "degenerate_par = example_par\<lparr>rho := 1, Delta := - 1 / 2, P_high := 6 / 10\<rparr>"

definition other_par :: params where
  "other_par = example_par\<lparr>beta := 1 / 2, r := 1 / 10, Delta := 0, P_low := 1 / 4, P_high := 3 / 4\<rparr>"

text \<open>
  An instance of the scenario's bundle whose \<open>sim_m1\<close> has been assigned the three draws
  of the specification's simulation scenario.
\<close>

definition scenario_draws :: ConsumptionSavingModel where
  "scenario_draws = (init example_par)\<lparr>sim_m1 := [1, 2, 3]\<rparr>"

text \<open>
  The segment of a grid that serves a query point, and the value at the query point of
  the straight line through the two nodes of segment \<open>k\<close>.
\<close>

definition segment :: "real list \<Rightarrow> real \<Rightarrow> nat" where
  "segment grid q = min (searchsorted grid q - 1) (length grid - 2)"

definition line_through :: "real list \<Rightarrow> pyfloat list \<Rightarrow> nat \<Rightarrow> real \<Rightarrow> pyfloat" where
  "line_through grid values k q =
     (let t = (q - grid ! k) / (grid ! Suc k - grid ! k)
      in fadd (fmul (values ! k) (Some (1 - t))) (fmul (values ! Suc k) (Some t)))"

section \<open>Auxiliary facts\<close>

subsection \<open>Arithmetic on results\<close>

lemma floor_minus_one_real: "\<lfloor>- 1 :: real\<rfloor> = - 1"
  by (metis floor_of_int of_int_1 of_int_minus)

lemma fmul_split: "fadd (fmul (Some p) v) (fmul (Some q) v) = fmul (Some (p + q)) v"
  by (cases v) (simp_all add: fadd_def fmul_def distrib_right)

lemma fmul_one: "fmul (Some 1) v = v"
  by (cases v) (simp_all add: fmul_def)

subsection \<open>Grids and the grid sweep\<close>

lemma length_linspace: "length (linspace a b n) = n"
  by (simp add: linspace_def)

lemma nth_linspace: "i < n \<Longrightarrow> linspace a b n ! i = real i * ((b - a) / real (n - 1)) + a"
  by (simp add: linspace_def)

lemma linspace_lower: "a \<le> b \<Longrightarrow> m \<in> set (linspace a b n) \<Longrightarrow> a \<le> m"
  by (auto simp add: linspace_def)

lemma sorted_linspace: "a < b \<Longrightarrow> sorted_wrt (<) (linspace a b n)"
proof -
  assume ab: "a < b"
  show ?thesis
  proof (cases "n \<le> 1")
    case True
    then have "length (linspace a b n) \<le> 1" by (simp add: length_linspace)
    then show ?thesis by (cases "linspace a b n") (auto simp: Suc_le_eq)
  next
    case False
    define st where "st = (b - a) / real (n - 1)"
    from False ab have pos: "0 < st" by (simp add: st_def)
    have "sorted_wrt (\<lambda>i j. real i * st + a < real j * st + a) [0..<n]"
      by (rule sorted_wrt_mono_rel[OF _ sorted_wrt_upt]) (use pos in simp)
    then show ?thesis by (simp add: linspace_def sorted_wrt_map st_def)
  qed
qed

lemma sweep:
  fixes body :: "nat \<times> real \<Rightarrow> pyfloat list \<times> pyfloat list \<Rightarrow> py_error + (pyfloat list \<times> pyfloat list)"
  assumes body: "\<And>i m vs cs. m \<in> set grid \<Longrightarrow> i < length vs \<Longrightarrow> length cs = length vs \<Longrightarrow>
      \<exists>w c. body (i, m) (vs, cs) = Inr (vs[i := w], cs[i := Some c]) \<and> lo \<le> c \<and> c \<le> hi m"
  shows "k + length grid \<le> length vs \<Longrightarrow> length cs = length vs \<Longrightarrow>
     \<exists>vs' cs'. for_loop body (enumerate k grid) (vs, cs) = Inr (vs', cs') \<and>
        length vs' = length vs \<and> length cs' = length cs \<and>
        (\<forall>i<length grid. \<exists>c. cs' ! (k + i) = Some c \<and> lo \<le> c \<and> c \<le> hi (grid ! i)) \<and>
        (\<forall>j<k. cs' ! j = cs ! j)"
  using body
proof (induction grid arbitrary: k vs cs)
  case Nil
  then show ?case by simp
next
  case (Cons m grid)
  have klt: "k < length vs" "k < length cs" using Cons.prems by simp_all
  from Cons.prems(3)[of m k vs cs] klt Cons.prems(2)
  obtain w c where b: "body (k, m) (vs, cs) = Inr (vs[k := w], cs[k := Some c])"
      and c: "lo \<le> c" "c \<le> hi m"
    by auto
  define vs1 where "vs1 = vs[k := w]"
  define cs1 where "cs1 = cs[k := Some c]"
  have "\<exists>vs' cs'. for_loop body (enumerate (Suc k) grid) (vs1, cs1) = Inr (vs', cs') \<and>
        length vs' = length vs1 \<and> length cs' = length cs1 \<and>
        (\<forall>i<length grid. \<exists>c. cs' ! (Suc k + i) = Some c \<and> lo \<le> c \<and> c \<le> hi (grid ! i)) \<and>
        (\<forall>j<Suc k. cs' ! j = cs1 ! j)"
    by (rule Cons.IH) (use Cons.prems in \<open>simp_all add: vs1_def cs1_def\<close>)
  then obtain vs' cs' where r: "for_loop body (enumerate (Suc k) grid) (vs1, cs1) = Inr (vs', cs')"
        "length vs' = length vs1" "length cs' = length cs1"
        "\<forall>i<length grid. \<exists>c. cs' ! (Suc k + i) = Some c \<and> lo \<le> c \<and> c \<le> hi (grid ! i)"
        "\<forall>j<Suc k. cs' ! j = cs1 ! j"
    by blast
  have k: "cs' ! k = Some c" using r(5) klt by (simp add: cs1_def)
  have old: "\<forall>j<k. cs' ! j = cs ! j" using r(5) by (simp add: cs1_def)
  have new: "\<exists>c. cs' ! (k + i) = Some c \<and> lo \<le> c \<and> c \<le> hi ((m # grid) ! i)" if "i < length (m # grid)" for i
  proof (cases i)
    case 0
    then show ?thesis using k c by simp
  next
    case (Suc i')
    then show ?thesis using r(4) that by simp
  qed
  show ?case
    using b r(1,2,3) new old by (simp add: vs1_def cs1_def)
qed


lemma linspace_first: "0 < n \<Longrightarrow> \<exists>rest. linspace a b n = a # rest"
proof -
  assume n: "0 < n"
  then have "[0..<n] = 0 # [1..<n]" by (simp add: upt_conv_Cons)
  then show ?thesis by (simp add: linspace_def)
qed

subsection \<open>The interpolator\<close>

lemma map_err_total: "(\<And>a. a \<in> set as \<Longrightarrow> f a = Inr (g a)) \<Longrightarrow> map_err f as = Inr (map g as)"
  by (induction as) simp_all

lemma searchsorted_le: "searchsorted grid q \<le> length grid"
  by (simp add: searchsorted_def length_takeWhile_le)

lemma segment_less: "2 \<le> length grid \<Longrightarrow> Suc (segment grid q) < length grid"
  unfolding segment_def by linarith

lemma strict_step: "sorted_wrt (<) grid \<Longrightarrow> Suc k < length grid \<Longrightarrow> grid ! k < (grid ! Suc k :: real)"
  by (simp add: sorted_wrt_nth_less)

lemma fone_minus: "fadd (Some 1) (fneg (Some t)) = Some (1 - t)"
  by (simp add: fadd_def fneg_def)

lemma fadd_zero: "fadd (Some 0) a = a"
  by (cases a) (simp_all add: fadd_def)

lemma np_get_nat: "k < length a \<Longrightarrow> np_get a (int k) = Inr (a ! k)"
  by (simp add: np_get_def)

lemma interp_point_line:
  assumes len: "2 \<le> length grid" and vals: "length values = length grid"
    and asc: "sorted_wrt (<) grid"
  shows "interp_point grid values q = Inr (line_through grid values (segment grid q) q)"
proof -
  define k where "k = segment grid q"
  have k: "Suc k < length grid" unfolding k_def by (rule segment_less[OF len])
  have idx: "(let i0 = int (searchsorted grid q) - 1;
          i1 = (if i0 < 0 then 0 else i0)
      in (if i1 > int (length grid) - 2 then int (length grid) - 2 else i1)) = int k"
    using len by (auto simp add: k_def segment_def Let_def min_def)
  have succ: "int k + 1 = int (Suc k)" by simp
  have ne: "grid ! Suc k - grid ! k \<noteq> 0" using strict_step[OF asc k] by simp
  have g: "np_get grid (int k) = Inr (grid ! k)" "np_get grid (int (Suc k)) = Inr (grid ! Suc k)"
    "np_get values (int k) = Inr (values ! k)" "np_get values (int (Suc k)) = Inr (values ! Suc k)"
    using k vals by (simp_all only: np_get_nat Suc_lessD)
  have "interp_point grid values q =
      Inr (fadd (fadd (Some 0) (fmul (values ! k) (fadd (Some 1) (fneg (fdiv (Some (q - grid ! k)) (grid ! Suc k - grid ! k))))))
                (fmul (values ! Suc k) (fdiv (Some (q - grid ! k)) (grid ! Suc k - grid ! k))))"
    unfolding interp_point_def using idx by (simp add: Let_def succ g del: of_nat_Suc)
  also have "\<dots> = Inr (line_through grid values k q)"
    using ne by (simp add: line_through_def Let_def fdiv_def fone_minus fadd_zero)
  finally show ?thesis by (simp add: k_def)
qed

lemma rgi_call_extrapolating:
  assumes "2 \<le> length grid" "length values = length grid" "sorted_wrt (<) grid"
  shows "rgi_call grid values False None xi = Inr (map (\<lambda>q. line_through grid values (segment grid q) q) xi)"
proof -
  have ne: "grid \<noteq> []" using assms(1) by auto
  have "map_err (interp_point grid values) xi = Inr (map (\<lambda>q. line_through grid values (segment grid q) q) xi)"
    by (rule map_err_total) (rule interp_point_line[OF assms])
  then show ?thesis using ne by (simp add: rgi_call_def)
qed

lemma RegularGridInterpolator_ok:
  assumes "2 \<le> length grid" "length values = length grid" "sorted_wrt (<) grid"
  shows "RegularGridInterpolator grid values False None = Inr (rgi_call grid values False None)"
  using assms by (simp add: RegularGridInterpolator_def)



subsection \<open>The period solvers\<close>

lemma box_constrainedD:
  assumes "box_constrained minimize" "lo \<le> hi" "\<And>u. \<exists>w. obj u = Inr w"
  shows "\<exists>res u. minimize obj x0 (lo, hi) = Inr res \<and> result_x res = [u] \<and> lo \<le> u \<and> u \<le> hi"
  using assms unfolding box_constrained_def by blast

lemma v1_total:
  assumes "\<And>q. \<exists>y. v2_interp [q] = Inr [y]"
  shows "\<exists>w. v1 self c1 m1 v2_interp = Inr w"
proof -
  obtain y_low where lo: "v2_interp [(1 + r (par self)) * (m1 - c1) + 1 - Delta (par self)] = Inr [y_low]"
    using assms by blast
  obtain y_high where hi: "v2_interp [(1 + r (par self)) * (m1 - c1) + 1 + Delta (par self)] = Inr [y_high]"
    using assms by blast
  show ?thesis by (simp add: v1_def Let_def lo hi index0_def)
qed

lemma period_2_grid_floor: "m \<in> set (linspace (1 / 10 ^ 4) 5 500) \<Longrightarrow> (1 / 10 ^ 8 :: real) \<le> m"
proof -
  assume "m \<in> set (linspace (1 / 10 ^ 4) 5 500)"
  then have "(1 / 10 ^ 4 :: real) \<le> m"
    by (rule linspace_lower[of _ 5 _ 500, rotated]) simp
  then show ?thesis by simp
qed

lemma period_1_grid_floor: "m \<in> set (linspace (1 / 10 ^ 8) 4 100) \<Longrightarrow> (1 / 10 ^ 12 :: real) \<le> m"
proof -
  assume "m \<in> set (linspace (1 / 10 ^ 8) 4 100)"
  then have "(1 / 10 ^ 8 :: real) \<le> m"
    by (rule linspace_lower[of _ 4 _ 100, rotated]) simp
  then show ?thesis by simp
qed

lemma solve_period_2_ok:
  assumes bc: "box_constrained minimize"
  shows "\<exists>v2s c2s. solve_period_2 Legacy minimize self = Inr (linspace (1 / 10 ^ 4) 5 500, v2s, c2s) \<and>
           length v2s = 500 \<and> length c2s = 500 \<and>
           (\<forall>i<500. \<exists>c. c2s ! i = Some c \<and> 1 / 10 ^ 8 \<le> c \<and> c \<le> linspace (1 / 10 ^ 4) 5 500 ! i)"
proof -
  define grid where "grid = linspace (1 / 10 ^ 4) 5 500"
  define body where "body = (\<lambda>(i, m2) (v2s, c2s).
                   let obj = (\<lambda>u. Inr (fneg (v2 self u m2)));
                       x0 = m2 / 2
                   in case minimize obj x0 (1 / 10 ^ 8, m2) of Inl e \<Rightarrow> Inl e
                      | Inr result \<Rightarrow>
                         (case store v2s i (fneg (result_fun result)) of Inl e \<Rightarrow> Inl e
                          | Inr v2s' \<Rightarrow>
                             (case setitem_array Legacy c2s i (result_x result) of Inl e \<Rightarrow> Inl e
                              | Inr c2s' \<Rightarrow> Inr (v2s', c2s'))))"
  have len: "length grid = 500" by (simp add: grid_def length_linspace)
  have body: "\<exists>w c. body (i, m) (vs, cs) = Inr (vs[i := w], cs[i := Some c]) \<and> 1 / 10 ^ 8 \<le> c \<and> c \<le> m"
    if "m \<in> set grid" "i < length vs" "length cs = length vs" for i m vs cs
  proof -
    have "(1 / 10 ^ 8 :: real) \<le> m" using that(1) unfolding grid_def by (rule period_2_grid_floor)
    then obtain res u where res: "minimize (\<lambda>u. Inr (fneg (v2 self u m))) (m / 2) (1 / 10 ^ 8, m) = Inr res"
        "result_x res = [u]" "1 / 10 ^ 8 \<le> u" "u \<le> m"
      using box_constrainedD[OF bc, where lo = "1 / 10 ^ 8" and hi = m
              and obj = "\<lambda>u. Inr (fneg (v2 self u m))" and ?x0.0 = "m / 2"] by auto
    have "body (i, m) (vs, cs) = Inr (vs[i := fneg (result_fun res)], cs[i := Some u])"
      using that(2,3) res(1,2) by (simp add: body_def Let_def store_def setitem_array_def)
    then show ?thesis using res(3,4) by blast
  qed
  have "\<exists>vs' cs'. for_loop body (enumerate 0 grid) (np_empty 500, np_empty 500) = Inr (vs', cs') \<and>
        length vs' = length (np_empty 500) \<and> length cs' = length (np_empty 500) \<and>
        (\<forall>i<length grid. \<exists>c. cs' ! (0 + i) = Some c \<and> 1 / 10 ^ 8 \<le> c \<and> c \<le> grid ! i) \<and>
        (\<forall>j<0. cs' ! j = np_empty 500 ! j)"
    by (rule sweep[where hi = "\<lambda>m. m", OF body]) (simp_all add: len np_empty_def)
  then obtain vs' cs' where r: "for_loop body (enumerate 0 grid) (np_empty 500, np_empty 500) = Inr (vs', cs')"
     "length vs' = 500" "length cs' = 500"
     "\<forall>i<500. \<exists>c. cs' ! i = Some c \<and> 1 / 10 ^ 8 \<le> c \<and> c \<le> grid ! i"
    by (auto simp add: len np_empty_def)
  have "solve_period_2 Legacy minimize self = Inr (grid, vs', cs')"
    unfolding solve_period_2_def Let_def using r(1) unfolding body_def grid_def Let_def by simp
  then show ?thesis using r(2,3,4) unfolding grid_def by blast
qed

lemma solve_period_2_first_call:
  assumes "\<And>m2. minimize (\<lambda>u. Inr (fneg (v2 self u m2))) (m2 / 2) (1 / 10 ^ 8, m2) = Inl e"
  shows "solve_period_2 np minimize self = Inl e"
proof -
  obtain rest where g: "linspace (1 / 10 ^ 4) 5 500 = 1 / 10 ^ 4 # rest"
    using linspace_first[of 500 "1 / 10 ^ 4" 5] by auto
  have "minimize (\<lambda>u. Inr (fneg (v2 self u (1 / 10 ^ 4)))) (1 / 10 ^ 4 / 2) (1 / 10 ^ 8, 1 / 10 ^ 4) = Inl e"
    by (rule assms)
  then show ?thesis unfolding solve_period_2_def Let_def g by simp
qed

lemma solve_period_2_current:
  assumes bc: "box_constrained minimize"
  shows "solve_period_2 Current minimize self = Inl ValueError"
proof -
  obtain rest where g: "linspace (1 / 10 ^ 4) 5 500 = 1 / 10 ^ 4 # rest"
    using linspace_first[of 500 "1 / 10 ^ 4" 5] by auto
  obtain res where res:
      "minimize (\<lambda>u. Inr (fneg (v2 self u (1 / 10 ^ 4)))) (1 / 10 ^ 4 / 2) (1 / 10 ^ 8, 1 / 10 ^ 4) = Inr res"
    using box_constrainedD[OF bc, where lo = "1 / 10 ^ 8" and hi = "1 / 10 ^ 4"
            and obj = "\<lambda>u. Inr (fneg (v2 self u (1 / 10 ^ 4)))" and ?x0.0 = "1 / 10 ^ 4 / 2"]
    by auto
  show ?thesis
    unfolding solve_period_2_def Let_def g
    using res by (simp add: store_def np_empty_def setitem_array_def)
qed


lemma solve_period_1_ok:
  assumes bc: "box_constrained minimize" and rr: "- 1 < r (par self)" and dd: "Delta (par self) \<le> 1"
    and total: "\<And>q. \<exists>y. v2_interp [q] = Inr [y]"
  shows "\<exists>v1s c1s. solve_period_1 minimize self v2_interp = Inr (linspace (1 / 10 ^ 8) 4 100, v1s, c1s) \<and>
           length v1s = 100 \<and> length c1s = 100 \<and>
           (\<forall>i<100. \<exists>c. c1s ! i = Some c \<and> 1 / 10 ^ 12 \<le> c \<and>
               c \<le> linspace (1 / 10 ^ 8) 4 100 ! i + (1 - Delta (par self)) / (1 + r (par self)))"
proof -
  define grid where "grid = linspace (1 / 10 ^ 8) 4 100"
  define obj where "obj = (\<lambda>m1 u. case v1 self u m1 v2_interp of Inl e \<Rightarrow> Inl e | Inr w \<Rightarrow> Inr (fneg w))"
  define body where "body = (\<lambda>(i, m1) (v1s, c1s).
                   let obj = (\<lambda>u. case v1 self u m1 v2_interp of Inl e \<Rightarrow> Inl e
                                    | Inr w \<Rightarrow> Inr (fneg w));
                       x0 = m1 / 2
                   in if 1 + r (par self) = 0 then Inl ZeroDivisionError
                      else
                       case minimize obj x0
                              (1 / 10 ^ 12, m1 + (1 - Delta (par self)) / (1 + r (par self)))
                       of Inl e \<Rightarrow> Inl e
                        | Inr result \<Rightarrow>
                           (case store v1s i (fneg (result_fun result)) of Inl e \<Rightarrow> Inl e
                            | Inr v1s' \<Rightarrow>
                               (case index0 (result_x result) of Inl e \<Rightarrow> Inl e
                                | Inr c \<Rightarrow>
                                   (case store c1s i (Some c) of Inl e \<Rightarrow> Inl e
                                    | Inr c1s' \<Rightarrow> Inr (v1s', c1s')))))"
  have len: "length grid = 100" by (simp add: grid_def length_linspace)
  have nz: "1 + r (par self) \<noteq> 0" and pos: "0 < 1 + r (par self)" using rr by simp_all
  have slack: "0 \<le> (1 - Delta (par self)) / (1 + r (par self))" using pos dd by simp
  have body: "\<exists>w c. body (i, m) (vs, cs) = Inr (vs[i := w], cs[i := Some c]) \<and> 1 / 10 ^ 12 \<le> c \<and>
                 c \<le> m + (1 - Delta (par self)) / (1 + r (par self))"
    if "m \<in> set grid" "i < length vs" "length cs = length vs" for i m vs cs
  proof -
    have "(1 / 10 ^ 12 :: real) \<le> m" using that(1) unfolding grid_def by (rule period_1_grid_floor)
    then have box: "1 / 10 ^ 12 \<le> m + (1 - Delta (par self)) / (1 + r (par self))" using slack by linarith
    have tot: "\<exists>w. obj m u = Inr w" for u
      using v1_total[of v2_interp self u m] total by (auto simp add: obj_def)
    obtain res u where res: "minimize (obj m) (m / 2)
          (1 / 10 ^ 12, m + (1 - Delta (par self)) / (1 + r (par self))) = Inr res"
        "result_x res = [u]" "1 / 10 ^ 12 \<le> u" "u \<le> m + (1 - Delta (par self)) / (1 + r (par self))"
      using box_constrainedD[OF bc box, where obj = "obj m" and ?x0.0 = "m / 2"] tot by auto
    have "body (i, m) (vs, cs) = Inr (vs[i := fneg (result_fun res)], cs[i := Some u])"
      using that(2,3) nz res(1,2) by (simp add: body_def Let_def obj_def store_def index0_def)
    then show ?thesis using res(3,4) by blast
  qed
  have "\<exists>vs' cs'. for_loop body (enumerate 0 grid) (np_empty 100, np_empty 100) = Inr (vs', cs') \<and>
        length vs' = length (np_empty 100) \<and> length cs' = length (np_empty 100) \<and>
        (\<forall>i<length grid. \<exists>c. cs' ! (0 + i) = Some c \<and> 1 / 10 ^ 12 \<le> c \<and>
            c \<le> grid ! i + (1 - Delta (par self)) / (1 + r (par self))) \<and>
        (\<forall>j<0. cs' ! j = np_empty 100 ! j)"
    by (rule sweep[where hi = "\<lambda>m. m + (1 - Delta (par self)) / (1 + r (par self))", OF body])
       (simp_all add: len np_empty_def)
  then obtain vs' cs' where r: "for_loop body (enumerate 0 grid) (np_empty 100, np_empty 100) = Inr (vs', cs')"
     "length vs' = 100" "length cs' = 100"
     "\<forall>i<100. \<exists>c. cs' ! i = Some c \<and> 1 / 10 ^ 12 \<le> c \<and> c \<le> grid ! i + (1 - Delta (par self)) / (1 + r (par self))"
    by (auto simp add: len np_empty_def)
  have "solve_period_1 minimize self v2_interp = Inr (grid, vs', cs')"
    unfolding solve_period_1_def Let_def using r(1) unfolding body_def grid_def Let_def by simp
  then show ?thesis using r(2,3,4) unfolding grid_def by blast
qed


subsection \<open>The full solve\<close>

lemma linspace_nonempty: "0 < n \<Longrightarrow> linspace a b n \<noteq> []"
  using length_linspace[of a b n] by auto

lemma rgi_call_single:
  assumes "2 \<le> length grid" "length values = length grid" "sorted_wrt (<) grid"
  shows "rgi_call grid values False None [q] = Inr [line_through grid values (segment grid q) q]"
  using rgi_call_extrapolating[OF assms, of "[q]"] by simp

lemma solve_ok:
  assumes bc: "box_constrained minimize" and rr: "- 1 < r (par self)" and dd: "Delta (par self) \<le> 1"
  shows "\<exists>v2s c2s v1s c1s.
     solve_period_2 Legacy minimize self = Inr (linspace (1 / 10 ^ 4) 5 500, v2s, c2s) \<and>
     length v2s = 500 \<and> length c2s = 500 \<and>
     (\<forall>i<500. \<exists>c. c2s ! i = Some c \<and> 1 / 10 ^ 8 \<le> c \<and> c \<le> linspace (1 / 10 ^ 4) 5 500 ! i) \<and>
     solve_period_1 minimize self (rgi_call (linspace (1 / 10 ^ 4) 5 500) v2s False None)
        = Inr (linspace (1 / 10 ^ 8) 4 100, v1s, c1s) \<and>
     length v1s = 100 \<and> length c1s = 100 \<and>
     (\<forall>i<100. \<exists>c. c1s ! i = Some c \<and> 1 / 10 ^ 12 \<le> c \<and>
         c \<le> linspace (1 / 10 ^ 8) 4 100 ! i + (1 - Delta (par self)) / (1 + r (par self))) \<and>
     solve Legacy minimize self
        = Inr (linspace (1 / 10 ^ 8) 4 100, v1s, c1s, linspace (1 / 10 ^ 4) 5 500, v2s, c2s)"
proof -
  define G2 where "G2 = linspace (1 / 10 ^ 4) 5 500"
  define G1 where "G1 = linspace (1 / 10 ^ 8) 4 100"
  obtain v2s c2s where p2: "solve_period_2 Legacy minimize self = Inr (G2, v2s, c2s)"
      "length v2s = 500" "length c2s = 500"
      "\<forall>i<500. \<exists>c. c2s ! i = Some c \<and> 1 / 10 ^ 8 \<le> c \<and> c \<le> G2 ! i"
    using solve_period_2_ok[OF bc, of self] unfolding G2_def by blast
  have g2: "2 \<le> length G2" "length v2s = length G2" "sorted_wrt (<) G2"
    by (simp_all add: G2_def length_linspace p2(2) sorted_linspace)
  have rgi: "RegularGridInterpolator G2 v2s False None = Inr (rgi_call G2 v2s False None)"
    by (rule RegularGridInterpolator_ok[OF g2])
  have total: "\<exists>y. rgi_call G2 v2s False None [q] = Inr [y]" for q
    using rgi_call_single[OF g2] by blast
  obtain v1s c1s where p1: "solve_period_1 minimize self (rgi_call G2 v2s False None) = Inr (G1, v1s, c1s)"
      "length v1s = 100" "length c1s = 100"
      "\<forall>i<100. \<exists>c. c1s ! i = Some c \<and> 1 / 10 ^ 12 \<le> c \<and>
         c \<le> G1 ! i + (1 - Delta (par self)) / (1 + r (par self))"
    using solve_period_1_ok[of minimize self "rgi_call G2 v2s False None", OF bc rr dd total]
    unfolding G1_def by blast
  have "solve Legacy minimize self = Inr (G1, v1s, c1s, G2, v2s, c2s)"
    by (simp add: solve_def p2(1) rgi p1(1))
  then show ?thesis using p2 p1 unfolding G1_def G2_def by blast
qed


lemma solve_current:
  "box_constrained minimize \<Longrightarrow> solve Current minimize self = Inl ValueError"
  by (simp add: solve_def solve_period_2_current)

lemma simulate_current:
  "box_constrained minimize \<Longrightarrow> simulate Current minimize self = Inl ValueError"
  by (simp add: simulate_def solve_current)

lemma solve_raising: "solve np (raising e) self = Inl e"
proof -
  have "solve_period_2 np (raising e) self = Inl e"
    by (rule solve_period_2_first_call) (simp add: raising_def)
  then show ?thesis by (simp add: solve_def)
qed

lemma valid_par_solvable: "valid_par p \<Longrightarrow> - 1 < r p \<and> Delta p \<le> 1"
  by (simp add: valid_par_def)

lemma projected_start_box: "box_constrained projected_start"
  unfolding box_constrained_def
proof (intro allI impI)
  fix obj :: objective and x0 lo hi :: real
  assume le: "lo \<le> hi" and tot: "\<forall>u. \<exists>w. obj u = Inr w"
  obtain w where w: "obj (max lo (min hi x0)) = Inr w" using tot by blast
  show "\<exists>res u. projected_start obj x0 (lo, hi) = Inr res \<and> result_x res = [u] \<and> lo \<le> u \<and> u \<le> hi"
    using le w by (simp add: projected_start_def Let_def)
qed

lemma valid_example_par: "valid_par example_par"
  by (simp add: valid_par_def example_par_def)

lemma par_init: "par (init p) = p"
  by (simp add: init_def)

lemma solve_par_only: "par a = par b \<Longrightarrow> solve np minimize a = solve np minimize b"
proof -
  assume e: "par a = par b"
  have u: "utility a = utility b" by (intro ext) (simp add: utility_def e)
  have q: "bequest a = bequest b" by (intro ext) (simp add: bequest_def e)
  have "v2 a = v2 b" by (intro ext) (simp add: v2_def u q)
  then have p2: "solve_period_2 np minimize a = solve_period_2 np minimize b"
    by (simp add: solve_period_2_def)
  have "v1 a c m f = v1 b c m f" for c m f unfolding v1_def u e ..
  then have "v1 a = v1 b" by (intro ext)
  then have p1: "solve_period_1 minimize a f = solve_period_1 minimize b f" for f
    unfolding solve_period_1_def e by simp
  show ?thesis unfolding solve_def p2 p1 ..
qed

lemma simulate_ok:
  assumes bc: "box_constrained minimize" and rr: "- 1 < r (par self)" and dd: "Delta (par self) \<le> 1"
  shows "\<exists>m1s v1s c1s m2s v2s c2s.
     solve Legacy minimize self = Inr (m1s, v1s, c1s, m2s, v2s, c2s) \<and>
     RegularGridInterpolator m1s c1s False None = Inr (rgi_call m1s c1s False None) \<and>
     (\<forall>xi. rgi_call m1s c1s False None xi = Inr (map (\<lambda>q. line_through m1s c1s (segment m1s q) q) xi)) \<and>
     simulate Legacy minimize self = Inr (map (\<lambda>q. line_through m1s c1s (segment m1s q) q) (sim_m1 self))"
proof -
  define G1 where "G1 = linspace (1 / 10 ^ 8) 4 100"
  obtain v2s c2s v1s c1s where s: "length c1s = 100"
     "solve Legacy minimize self = Inr (G1, v1s, c1s, linspace (1 / 10 ^ 4) 5 500, v2s, c2s)"
    using solve_ok[OF bc rr dd] unfolding G1_def by blast
  have g1: "2 \<le> length G1" "length c1s = length G1" "sorted_wrt (<) G1"
    by (simp_all add: G1_def length_linspace s(1) sorted_linspace)
  have rgi: "RegularGridInterpolator G1 c1s False None = Inr (rgi_call G1 c1s False None)"
    by (rule RegularGridInterpolator_ok[OF g1])
  have call: "rgi_call G1 c1s False None xi = Inr (map (\<lambda>q. line_through G1 c1s (segment G1 q) q) xi)" for xi
    by (rule rgi_call_extrapolating[OF g1])
  have "simulate Legacy minimize self = Inr (map (\<lambda>q. line_through G1 c1s (segment G1 q) q) (sim_m1 self))"
    by (simp add: simulate_def s(2) rgi call)
  then show ?thesis using s(2) rgi call by blast
qed

section \<open>The period-1 objective\<close>

text \<open>
  C1. For every consumption \<open>c1\<close>, cash-on-hand \<open>m1\<close> and period-2 value interpolator
  \<open>V2\<close>, the period-1 objective is
  \<open>utility(c1) + beta * (P_low * V2(m2_low) + P_high * V2(m2_high))\<close> with
  \<open>m2_low = (1+r)*(m1-c1) + (1-Delta)\<close> and \<open>m2_high = (1+r)*(m1-c1) + (1+Delta)\<close>.
\<close>

theorem v1_objective:
  "v1 self c1 m1 (interp_of V2) =
     Inr (fadd (utility self c1)
            (fmul (Some (beta (par self)))
               (fadd (fmul (Some (P_low (par self)))
                        (V2 ((1 + r (par self)) * (m1 - c1) + (1 - Delta (par self)))))
                     (fmul (Some (P_high (par self)))
                        (V2 ((1 + r (par self)) * (m1 - c1) + (1 + Delta (par self))))))))"
proof -
  have low: "(1 + r (par self)) * (m1 - c1) + 1 - Delta (par self)
               = (1 + r (par self)) * (m1 - c1) + (1 - Delta (par self))"
    by simp
  have high: "(1 + r (par self)) * (m1 - c1) + 1 + Delta (par self)
               = (1 + r (par self)) * (m1 - c1) + (1 + Delta (par self))"
    by simp
  show ?thesis
    unfolding v1_def interp_of_def index0_def Let_def low high by simp
qed

text \<open>
  C6. With \<open>Delta = 0\<close> and \<open>P_low + P_high = 1\<close> the two income branches of the
  period-1 objective coincide (\<open>m2_low = m2_high\<close>), and \<open>v1(c1, m1, V2)\<close> is
  \<open>utility(c1) + beta * V2((1+r)*(m1-c1) + 1)\<close>, however the probability mass is split.
\<close>

theorem v1_degenerate:
  assumes "Delta (par self) = 0" "P_low (par self) + P_high (par self) = 1"
  shows "(1 + r (par self)) * (m1 - c1) + 1 - Delta (par self)
           = (1 + r (par self)) * (m1 - c1) + 1 + Delta (par self) \<and>
         v1 self c1 m1 (interp_of V2) =
           Inr (fadd (utility self c1)
                  (fmul (Some (beta (par self))) (V2 ((1 + r (par self)) * (m1 - c1) + 1))))"
  using assms by (simp add: v1_def interp_of_def index0_def Let_def fmul_split fmul_one)

text \<open>
  The degenerate case at \<open>P_low = 1/4\<close>, \<open>P_high = 3/4\<close>, \<open>c1 = 1\<close>, \<open>m1 = 2\<close> and the
  identity as interpolator.
\<close>

theorem v1_degenerate_witness:
  "Delta (par (init other_par)) = 0 \<and> P_low (par (init other_par)) + P_high (par (init other_par)) = 1 \<and>
   v1 (init other_par) 1 2 (interp_of Some) =
     Inr (fadd (utility (init other_par) 1) (fmul (Some (1 / 2)) (Some (21 / 10))))"
proof -
  have h1: "Delta (par (init other_par)) = 0" by (simp add: par_init other_par_def example_par_def)
  have h2: "P_low (par (init other_par)) + P_high (par (init other_par)) = 1"
    by (simp add: par_init other_par_def example_par_def)
  have b: "beta other_par = 1 / 2" "r other_par = 1 / 10" by (simp_all add: other_par_def example_par_def)
  show ?thesis using v1_degenerate[OF h1 h2, of 2 1 Some] h1 h2 by (simp add: par_init b)
qed

section \<open>Utility and bequest\<close>

text \<open>
  C2, as amended. With \<open>rho \<noteq> 1\<close>: for \<open>c > 0\<close>, \<open>utility(c)\<close> is exactly
  \<open>c^(1-rho)/(1-rho)\<close>; for \<open>m - c + kappa > 0\<close>, \<open>bequest(m, c)\<close> is exactly
  \<open>nu * (m - c + kappa)^(1-rho) / (1-rho)\<close>; and for \<open>c \<le> 0\<close>, \<open>utility(c)\<close> has no finite
  result exactly when \<open>c = 0\<close> and \<open>rho > 1\<close>, or \<open>c < 0\<close> and \<open>1 - rho\<close> is not an integer.
  In the other cases with \<open>c \<le> 0\<close> it returns a finite number.
\<close>

theorem utility_bequest_formulas:
  assumes "rho (par self) \<noteq> 1"
  shows "(0 < c \<longrightarrow> utility self c = Some (c powr (1 - rho (par self)) / (1 - rho (par self)))) \<and>
         (0 < m - c' + kappa (par self) \<longrightarrow>
            bequest self m c' = Some (nu (par self) * (m - c' + kappa (par self)) powr (1 - rho (par self))
                                       / (1 - rho (par self)))) \<and>
         (d \<le> 0 \<longrightarrow>
            (utility self d = None \<longleftrightarrow>
               d = 0 \<and> 1 < rho (par self) \<or> d < 0 \<and> 1 - rho (par self) \<notin> \<int>))"
proof -
  have int: "(1 - rho (par self) = of_int \<lfloor>1 - rho (par self)\<rfloor>) = (1 - rho (par self) \<in> \<int>)"
    by (metis Ints_of_int of_int_floor)
  show ?thesis
    using assms by (auto simp add: utility_def bequest_def py_pow_def fdiv_def fmul_def int)
qed

text \<open>
  The three parts at the scenario's parameters (\<open>rho = 2\<close>): \<open>utility(2)\<close>,
  \<open>bequest(3, 1)\<close>, the failing \<open>utility(0)\<close> and the finite \<open>utility(-1)\<close>.
\<close>

theorem utility_bequest_formulas_witness:
  "rho (par (init example_par)) \<noteq> 1 \<and>
   utility (init example_par) 2 = Some (2 powr (- 1) / (- 1)) \<and>
   bequest (init example_par) 3 1 = Some (1 / 10 * (5 / 2) powr (- 1) / (- 1)) \<and>
   utility (init example_par) 0 = None \<and>
   utility (init example_par) (- 1) \<noteq> None"
proof -
  have h: "rho (par (init example_par)) \<noteq> 1" by (simp add: par_init example_par_def)
  have i: "(- 1 :: real) \<in> \<int>" by simp
  show ?thesis
    using utility_bequest_formulas[OF h, of 2 3 1 0] utility_bequest_formulas[OF h, of 2 3 1 "- 1"] i
    by (simp add: par_init example_par_def)
qed

text \<open>
  C2 as stated fails: with \<open>rho = 2\<close> the consumption \<open>c = -1 \<le> 0\<close> has the finite
  utility \<open>(-1)^(-1) / (-1) = 1\<close>.
\<close>

theorem utility_negative_finite_counterexample:
  "(- 1 :: real) \<le> 0 \<and> utility (init example_par) (- 1) = Some 1"
  by (simp add: utility_def init_def example_par_def py_pow_def fdiv_def floor_minus_one_real)

section \<open>The period-2 solution and the parameters it reads\<close>

text \<open>
  C9. Two instances whose bundles agree on \<open>rho\<close>, \<open>nu\<close> and \<open>kappa\<close> get the same
  result from \<open>solve_period_2\<close>, whatever their \<open>beta\<close>, \<open>r\<close>, \<open>Delta\<close>, \<open>P_low\<close> and
  \<open>P_high\<close> are.
\<close>

theorem solve_period_2_depends_on_preferences:
  assumes "rho (par a) = rho (par b)" "nu (par a) = nu (par b)" "kappa (par a) = kappa (par b)"
  shows "solve_period_2 np minimize a = solve_period_2 np minimize b"
proof -
  have "v2 a = v2 b" using assms by (intro ext) (simp add: v2_def utility_def bequest_def)
  then show ?thesis by (simp add: solve_period_2_def)
qed

text \<open>
  Two bundles that differ in all of \<open>beta\<close>, \<open>r\<close>, \<open>Delta\<close>, \<open>P_low\<close>, \<open>P_high\<close>.
\<close>

theorem solve_period_2_depends_on_preferences_witness:
  "rho (par (init example_par)) = rho (par (init other_par)) \<and>
   nu (par (init example_par)) = nu (par (init other_par)) \<and>
   kappa (par (init example_par)) = kappa (par (init other_par)) \<and>
   beta example_par \<noteq> beta other_par \<and> r example_par \<noteq> r other_par \<and>
   Delta example_par \<noteq> Delta other_par \<and> P_low example_par \<noteq> P_low other_par \<and>
   P_high example_par \<noteq> P_high other_par \<and>
   solve_period_2 Legacy projected_start (init example_par)
     = solve_period_2 Legacy projected_start (init other_par) \<and>
   solve_period_2 Current projected_start (init example_par)
     = solve_period_2 Current projected_start (init other_par)"
proof -
  have h: "rho (par (init example_par)) = rho (par (init other_par))"
    "nu (par (init example_par)) = nu (par (init other_par))"
    "kappa (par (init example_par)) = kappa (par (init other_par))"
    by (simp_all add: par_init other_par_def)
  have d: "beta example_par \<noteq> beta other_par" "r example_par \<noteq> r other_par"
   "Delta example_par \<noteq> Delta other_par" "P_low example_par \<noteq> P_low other_par"
   "P_high example_par \<noteq> P_high other_par"
    by (simp_all add: other_par_def example_par_def)
  from solve_period_2_depends_on_preferences[OF h, of Legacy projected_start]
       solve_period_2_depends_on_preferences[OF h, of Current projected_start] h d
  show ?thesis by blast
qed

section \<open>The solver on an array library that converts one-entry arrays\<close>

text \<open>
  With the earlier rule for \<^verbatim>\<open>c2s[i] = result.x\<close>, an optimiser that keeps to its box and
  \<open>r > -1\<close>, \<open>Delta \<le> 1\<close>, both sweeps complete. The stored consumptions are feasible at
  every grid index: \<open>0 < c2s[i] \<le> m2s[i]\<close> and \<open>0 < c1s[i] \<le> m1s[i] + (1-Delta)/(1+r)\<close>.
\<close>

lemma legacy_consumption_feasible:
  assumes "box_constrained minimize" "- 1 < r (par self)" "Delta (par self) \<le> 1"
  shows "\<exists>m1s v1s c1s m2s v2s c2s.
     solve_period_2 Legacy minimize self = Inr (m2s, v2s, c2s) \<and>
     solve Legacy minimize self = Inr (m1s, v1s, c1s, m2s, v2s, c2s) \<and>
     (\<forall>i<length m2s. \<exists>c2. c2s ! i = Some c2 \<and> 0 < c2 \<and> c2 \<le> m2s ! i) \<and>
     (\<forall>i<length m1s. \<exists>c1. c1s ! i = Some c1 \<and> 0 < c1 \<and>
          c1 \<le> m1s ! i + (1 - Delta (par self)) / (1 + r (par self)))"
proof -
  define G2 where "G2 = linspace (1 / 10 ^ 4) 5 500"
  define G1 where "G1 = linspace (1 / 10 ^ 8) 4 100"
  obtain v2s c2s v1s c1s where s: "solve_period_2 Legacy minimize self = Inr (G2, v2s, c2s)"
     "\<forall>i<500. \<exists>c. c2s ! i = Some c \<and> 1 / 10 ^ 8 \<le> c \<and> c \<le> G2 ! i"
     "\<forall>i<100. \<exists>c. c1s ! i = Some c \<and> 1 / 10 ^ 12 \<le> c \<and>
         c \<le> G1 ! i + (1 - Delta (par self)) / (1 + r (par self))"
     "solve Legacy minimize self = Inr (G1, v1s, c1s, G2, v2s, c2s)"
    using solve_ok[OF assms] unfolding G1_def G2_def by blast
  have l: "length G2 = 500" "length G1 = 100" by (simp_all add: G1_def G2_def length_linspace)
  have a: "\<exists>c2. c2s ! i = Some c2 \<and> 0 < c2 \<and> c2 \<le> G2 ! i" if "i < length G2" for i
  proof -
    from that l s(2) obtain c where c: "c2s ! i = Some c" "1 / 10 ^ 8 \<le> c" "c \<le> G2 ! i" by auto
    have "(0::real) < 1 / 10 ^ 8" by simp
    with c show ?thesis by auto
  qed
  have b: "\<exists>c1. c1s ! i = Some c1 \<and> 0 < c1 \<and> c1 \<le> G1 ! i + (1 - Delta (par self)) / (1 + r (par self))"
    if "i < length G1" for i
  proof -
    from that l s(3) obtain c where c: "c1s ! i = Some c" "1 / 10 ^ 12 \<le> c"
       "c \<le> G1 ! i + (1 - Delta (par self)) / (1 + r (par self))" by auto
    have "(0::real) < 1 / 10 ^ 12" by simp
    with c show ?thesis by auto
  qed
  show ?thesis using s(1,4) a b by blast
qed

text \<open>
  There \<open>solve\<close> runs the period-2 solver, builds the interpolator over its \<open>(m2, v2)\<close>,
  runs the period-1 solver with it and returns \<open>(m1, v1, c1, m2, v2, c2)\<close>, with 100 and
  500 entries.
\<close>

lemma legacy_solve_sequence:
  assumes "box_constrained minimize" "- 1 < r (par self)" "Delta (par self) \<le> 1"
  shows "\<exists>m1s v1s c1s m2s v2s c2s v2_interp.
     solve_period_2 Legacy minimize self = Inr (m2s, v2s, c2s) \<and>
     RegularGridInterpolator m2s v2s False None = Inr v2_interp \<and>
     solve_period_1 minimize self v2_interp = Inr (m1s, v1s, c1s) \<and>
     solve Legacy minimize self = Inr (m1s, v1s, c1s, m2s, v2s, c2s) \<and>
     length m1s = 100 \<and> length v1s = 100 \<and> length c1s = 100 \<and>
     length m2s = 500 \<and> length v2s = 500 \<and> length c2s = 500"
proof -
  define G2 where "G2 = linspace (1 / 10 ^ 4) 5 500"
  define G1 where "G1 = linspace (1 / 10 ^ 8) 4 100"
  obtain v2s c2s v1s c1s where s: "solve_period_2 Legacy minimize self = Inr (G2, v2s, c2s)"
     "length v2s = 500" "length c2s = 500"
     "solve_period_1 minimize self (rgi_call G2 v2s False None) = Inr (G1, v1s, c1s)"
     "length v1s = 100" "length c1s = 100"
     "solve Legacy minimize self = Inr (G1, v1s, c1s, G2, v2s, c2s)"
    using solve_ok[OF assms] unfolding G1_def G2_def by blast
  have l: "length G2 = 500" "length G1 = 100" by (simp_all add: G1_def G2_def length_linspace)
  have g2: "2 \<le> length G2" "length v2s = length G2" "sorted_wrt (<) G2"
    by (simp_all add: l s(2)) (simp add: G2_def sorted_linspace)
  have rgi: "RegularGridInterpolator G2 v2s False None = Inr (rgi_call G2 v2s False None)"
    by (rule RegularGridInterpolator_ok[OF g2])
  show ?thesis using s rgi l by blast
qed

text \<open>
  And \<open>simulate\<close> returns one value per draw of \<open>sim_m1\<close>, in the order of the draws, each
  the answer of the interpolator over \<open>(m1, c1)\<close> at that draw; none for a fresh instance.
\<close>

lemma legacy_simulate_per_draw:
  assumes "box_constrained minimize" "- 1 < r (par self)" "Delta (par self) \<le> 1"
  shows "\<exists>m1s v1s c1s m2s v2s c2s c1_interp1 sim_c1.
     solve Legacy minimize self = Inr (m1s, v1s, c1s, m2s, v2s, c2s) \<and>
     RegularGridInterpolator m1s c1s False None = Inr c1_interp1 \<and>
     simulate Legacy minimize self = Inr sim_c1 \<and>
     length sim_c1 = length (sim_m1 self) \<and>
     (\<forall>k<length (sim_m1 self). c1_interp1 [sim_m1 self ! k] = Inr [sim_c1 ! k])"
proof -
  obtain m1s v1s c1s m2s v2s c2s where s:
     "solve Legacy minimize self = Inr (m1s, v1s, c1s, m2s, v2s, c2s)"
     "RegularGridInterpolator m1s c1s False None = Inr (rgi_call m1s c1s False None)"
     "\<forall>xi. rgi_call m1s c1s False None xi = Inr (map (\<lambda>q. line_through m1s c1s (segment m1s q) q) xi)"
     "simulate Legacy minimize self = Inr (map (\<lambda>q. line_through m1s c1s (segment m1s q) q) (sim_m1 self))"
    using simulate_ok[OF assms] by blast
  define sim_c1 where "sim_c1 = map (\<lambda>q. line_through m1s c1s (segment m1s q) q) (sim_m1 self)"
  have len: "length sim_c1 = length (sim_m1 self)" by (simp add: sim_c1_def)
  have each: "rgi_call m1s c1s False None [sim_m1 self ! k] = Inr [sim_c1 ! k]" if "k < length (sim_m1 self)" for k
    using s(3) that by (simp add: sim_c1_def)
  show ?thesis using s(1,2) s(4)[folded sim_c1_def] len each by blast
qed

lemma legacy_simulate_length:
  assumes "box_constrained minimize" "- 1 < r (par self)" "Delta (par self) \<le> 1"
  shows "map_sum id length (simulate Legacy minimize self) = Inr (length (sim_m1 self))"
  using simulate_ok[OF assms] by auto

lemma example_solvable: "- 1 < r example_par" "Delta example_par \<le> 1"
  by (simp_all add: example_par_def)

section \<open>The solved arrays\<close>

text \<open>
  C3. The claim: for a valid parameter bundle the stored optimal consumptions are
  feasible at every grid index. On the current array library the period-2 solver stores
  none: at the scenario's bundle the assignment \<^verbatim>\<open>c2s[i] = result.x\<close> of the first grid point
  raises, where the period-1 solver assigns \<^verbatim>\<open>result.x[0]\<close>.
\<close>

theorem solve_period_2_raises_at_first_store:
  "valid_par (par (init example_par)) \<and>
   solve_period_2 Current projected_start (init example_par) = Inl ValueError"
  by (simp add: par_init valid_example_par solve_period_2_current projected_start_box)

text \<open>
  C5. The claim: for a valid parameter bundle \<open>solve\<close> returns its six arrays. On the
  current array library it raises in the period-2 sweep at the scenario's bundle; with
  the earlier rule the same call returns.
\<close>

theorem solve_raises_in_period_2:
  "valid_par (par (init example_par)) \<and>
   solve Current projected_start (init example_par) = Inl ValueError \<and>
   \<not> isl (solve Legacy projected_start (init example_par))"
proof -
  have "\<exists>out. solve Legacy projected_start (init example_par) = Inr out"
    using solve_ok[of projected_start "init example_par"] projected_start_box example_solvable
    by (auto simp add: par_init)
  then have "\<not> isl (solve Legacy projected_start (init example_par))" by auto
  then show ?thesis
    by (simp add: par_init valid_example_par solve_current projected_start_box)
qed

section \<open>Invalid parameter values\<close>

text \<open>
  C4, as amended. \<open>solve\<close> validates nothing at entry. For every parameter bundle, valid
  or not, it goes straight into the period-2 sweep, whose first action is the optimiser
  call at the first grid point: if that call raises, \<open>solve\<close> raises the same error, so
  nothing is reported before optimisation runs. With the earlier rule of the array
  library and an optimiser that keeps to its box, every bundle with \<open>r > -1\<close> and
  \<open>Delta \<le> 1\<close>, also one with \<open>rho = 1\<close>, with probabilities that do not sum to one or
  with \<open>Delta < 0\<close>, gets its six arrays and no error.
\<close>

theorem solve_without_validation:
  "solve np (raising e) self = Inl e \<and>
   (box_constrained minimize \<and> - 1 < r (par self) \<and> Delta (par self) \<le> 1 \<longrightarrow>
      (\<exists>m1s v1s c1s m2s v2s c2s.
          solve Legacy minimize self = Inr (m1s, v1s, c1s, m2s, v2s, c2s)))"
proof -
  have "\<exists>m1s v1s c1s m2s v2s c2s. solve Legacy minimize self = Inr (m1s, v1s, c1s, m2s, v2s, c2s)"
    if "box_constrained minimize" "- 1 < r (par self)" "Delta (par self) \<le> 1"
    using solve_ok[OF that] by blast
  then show ?thesis by (simp add: solve_raising)
qed

text \<open>
  A bundle with \<open>rho = 1\<close>, \<open>Delta = -1/2\<close> and \<open>P_low + P_high = 11/10\<close>: the optimiser's
  error comes through on either array library, and a working optimiser gives arrays.
\<close>

theorem solve_without_validation_witness:
  "box_constrained projected_start \<and> - 1 < r (par (init degenerate_par)) \<and>
   Delta (par (init degenerate_par)) \<le> 1 \<and>
   rho (par (init degenerate_par)) = 1 \<and> Delta (par (init degenerate_par)) < 0 \<and>
   P_low (par (init degenerate_par)) + P_high (par (init degenerate_par)) \<noteq> 1 \<and>
   \<not> valid_par (par (init degenerate_par)) \<and>
   solve Current (raising ZeroDivisionError) (init degenerate_par) = Inl ZeroDivisionError \<and>
   solve Legacy (raising IndexError) (init degenerate_par) = Inl IndexError \<and>
   (\<exists>m1s v1s c1s m2s v2s c2s.
      solve Legacy projected_start (init degenerate_par) = Inr (m1s, v1s, c1s, m2s, v2s, c2s))"
proof -
  have rr: "- 1 < r (par (init degenerate_par))" and dd: "Delta (par (init degenerate_par)) \<le> 1"
    by (simp_all add: par_init degenerate_par_def example_par_def)
  have bad: "rho (par (init degenerate_par)) = 1" "Delta (par (init degenerate_par)) < 0"
    "P_low (par (init degenerate_par)) + P_high (par (init degenerate_par)) \<noteq> 1"
    "\<not> valid_par (par (init degenerate_par))"
    by (simp_all add: par_init degenerate_par_def example_par_def valid_par_def)
  from solve_without_validation[of Current ZeroDivisionError "init degenerate_par" projected_start]
       solve_without_validation[of Legacy IndexError "init degenerate_par" projected_start]
       projected_start_box rr dd bad
  show ?thesis by blast
qed

text \<open>
  C4 as stated fails: the scenario's bundle with \<open>P_high\<close> changed to \<open>0.6\<close> is invalid
  (the probabilities sum to \<open>1.1\<close>); the optimiser is nevertheless called, on either
  array library, and with the earlier rule \<open>solve\<close> returns its arrays, not an error.
\<close>

theorem solve_skewed_probabilities_counterexample:
  "\<not> valid_par (par (init skewed_par)) \<and>
   solve Current (raising IndexError) (init skewed_par) = Inl IndexError \<and>
   solve Legacy (raising IndexError) (init skewed_par) = Inl IndexError \<and>
   \<not> isl (solve Legacy projected_start (init skewed_par))"
proof -
  have rr: "- 1 < r (par (init skewed_par))" and dd: "Delta (par (init skewed_par)) \<le> 1"
    by (simp_all add: par_init skewed_par_def example_par_def)
  from solve_ok[OF projected_start_box rr dd]
  obtain out where "solve Legacy projected_start (init skewed_par) = Inr out" by blast
  moreover have "\<not> valid_par (par (init skewed_par))"
    by (simp add: par_init skewed_par_def example_par_def valid_par_def)
  ultimately show ?thesis by (simp add: solve_raising)
qed

section \<open>Queries outside the grid\<close>



section \<open>The simulation\<close>

text \<open>
  C8. The claim: for a valid parameter bundle \<open>simulate\<close> returns one value per draw, three
  for the draws \<open>[1.0, 2.0, 3.0]\<close>. On the current array library it raises in the period-2
  sweep of its solve, before any interpolation; with the earlier rule the same call
  returns three values.
\<close>

theorem simulate_raises_before_interpolation:
  "valid_par (par scenario_draws) \<and> sim_m1 scenario_draws = [1, 2, 3] \<and>
   simulate Current projected_start scenario_draws = Inl ValueError \<and>
   map_sum id length (simulate Legacy projected_start scenario_draws) = Inr 3"
proof -
  have p: "par scenario_draws = example_par" and d: "sim_m1 scenario_draws = [1, 2, 3]"
    by (simp_all add: scenario_draws_def init_def)
  have "map_sum id length (simulate Legacy projected_start scenario_draws)
          = Inr (length (sim_m1 scenario_draws))"
    by (rule legacy_simulate_length) (simp_all add: projected_start_box p example_solvable)
  then show ?thesis
    by (simp add: p d valid_example_par simulate_current projected_start_box)
qed

text \<open>
  C10. The claim: \<open>simulate\<close> reads the draws from \<open>sim_m1\<close>, which the constructor sets to
  the empty list, so that a fresh instance yields an output of length zero, and every
  call runs \<open>solve\<close> anew. The constructor does so and \<open>simulate\<close> does run \<open>solve\<close>, but on
  the current array library that solve raises, and a fresh instance of the scenario's
  bundle yields no output; with the earlier rule it yields the empty one.
\<close>

theorem simulate_fresh_instance_raises:
  "sim_m1 (init example_par) = [] \<and>
   simulate Current projected_start (init example_par) = Inl ValueError \<and>
   simulate Legacy projected_start (init example_par) = Inr []"
proof -
  have "map_sum id length (simulate Legacy projected_start (init example_par))
          = Inr (length (sim_m1 (init example_par)))"
    by (rule legacy_simulate_length) (simp_all add: projected_start_box par_init example_solvable)
  then have "simulate Legacy projected_start (init example_par) = Inr []"
    by (cases "simulate Legacy projected_start (init example_par)") (simp_all add: init_def)
  then show ?thesis by (simp add: init_def simulate_current projected_start_box)
qed

end
